theory Spec2Isabelle
  imports Complex_Main
begin

section \<open>Errors\<close>

text \<open>
  The exceptions the Python code can raise on the paths modelled here: a missing
  dictionary key, a division by zero, and the fuzzy library's complaint about a
  simulation whose inputs were not set.
\<close>

datatype error = KeyError | ZeroDivisionError | ValueError

section \<open>fuzzy\_traffic\_controller.py\<close>

subsection \<open>Membership functions and rule table (setup\_fuzzy\_system, create\_rules)\<close>

text \<open>
  Modelled from the spec: \<open>fuzz.trimf\<close> belongs to the scikit-fuzzy library, which is
  imported by the source and is not part of it. The spec (section 3) describes a
  membership function as a triangular shape \<open>(a, b, c)\<close> with \<open>a \<le> b \<le> c\<close>, degree in
  \<open>[0,1]\<close>, zero outside \<open>[a,c]\<close>: the peak is 1 at \<open>b\<close>, and the two flanks are linear.
  Python floats are read as real numbers.
\<close>

definition trimf :: "real \<Rightarrow> real \<times> real \<times> real \<Rightarrow> real" where
  "trimf x abc =
     (case abc of (a, b, c) \<Rightarrow>
        if x = b then 1
        else if a < x \<and> x < b then (x - a) / (b - a)
        else if b < x \<and> x < c then (c - x) / (c - b)
        else 0)"

text \<open>The three linguistic variables with their labelled terms, lines 38 to 50.\<close>

definition queue_length :: "(string \<times> real \<times> real \<times> real) list" where
  "queue_length =
     [(''low'', (0, 0, 15)), (''medium'', (10, 25, 40)), (''high'', (35, 50, 50))]"

definition waiting_time :: "(string \<times> real \<times> real \<times> real) list" where
  "waiting_time =
     [(''short'', (0, 0, 100)), (''medium'', (60, 150, 240)), (''long'', (200, 300, 300))]"

definition green_time :: "(string \<times> real \<times> real \<times> real) list" where
  "green_time =
     [(''short'', (10, 10, 30)), (''medium'', (25, 50, 75)), (''long'', (60, 90, 90))]"

text \<open>\<open>np.arange(10, 91, 1)\<close>, the universe of the output variable.\<close>

definition green_time_universe :: "real list" where
  "green_time_universe = map real_of_int [10..90]"

text \<open>
  The nine rules of \<open>create_rules\<close> in the order of the source; a rule
  \<open>(ql, wl, gl)\<close> stands for
  \<open>ctrl.Rule(queue_length[ql] & waiting_time[wl], green_time[gl])\<close>.
\<close>

definition rules :: "(string \<times> string \<times> string) list" where
  "rules =
     [(''low'', ''short'', ''short''),
      (''low'', ''medium'', ''short''),
      (''low'', ''long'', ''medium''),
      (''medium'', ''short'', ''medium''),
      (''medium'', ''medium'', ''medium''),
      (''medium'', ''long'', ''long''),
      (''high'', ''short'', ''medium''),
      (''high'', ''medium'', ''long''),
      (''high'', ''long'', ''long'')]"

subsection \<open>Inference (the library call behind controller.compute)\<close>

text \<open>
  The Mamdani inference of scikit-fuzzy's \<open>ControlSystemSimulation.compute\<close> is library
  code outside the source. Section 4.1 of the spec gives it in four steps, which the next
  definitions follow one by one; the membership functions and the rule table they work on are
  those of the source.
\<close>

text \<open>
  Modelled from the spec: fuzzification (step 1), the degree of an input in the term
  \<open>lbl\<close> of a variable; the library's lookup of the term is missing. Every label used by
  \<open>rules\<close> is a key of its variable (lemma \<open>rules_labels_defined\<close>), so the
  \<open>None\<close> branch is never taken by the inference.
\<close>

definition membership :: "(string \<times> real \<times> real \<times> real) list \<Rightarrow> string \<Rightarrow> real \<Rightarrow> real" where
  "membership var lbl x = (case map_of var lbl of Some abc \<Rightarrow> trimf x abc | None \<Rightarrow> 0)"

text \<open>
  Modelled from the spec: rule firing strength (step 2), the minimum of the degrees of the
  rule's two antecedent terms; the library's evaluation of \<open>&\<close> is missing.
\<close>

definition firing :: "real \<Rightarrow> real \<Rightarrow> string \<times> string \<times> string \<Rightarrow> real" where
  "firing q w r =
     (case r of (ql, wl, gl) \<Rightarrow> min (membership queue_length ql q) (membership waiting_time wl w))"

text \<open>
  Modelled from the spec: aggregation (step 3), for an output label the maximum firing
  strength among the rules with that consequent; the library's accumulation is missing.
  Firing strengths are degrees in \<open>[0,1]\<close>, so starting the maximum at 0 changes nothing.
\<close>

definition aggregated :: "real \<Rightarrow> real \<Rightarrow> string \<Rightarrow> real" where
  "aggregated q w gl =
     foldr max (map (firing q w) (filter (\<lambda>r. snd (snd r) = gl) rules)) 0"

text \<open>
  Modelled from the spec: the combined output set (step 4), each output membership function
  clipped at its aggregated strength and the three joined by maximum; the library's
  construction of the output set is missing.
\<close>

definition clipped :: "real \<Rightarrow> real \<Rightarrow> real \<Rightarrow> real" where
  "clipped q w x =
     foldr max (map (\<lambda>t. min (aggregated q w (fst t)) (trimf x (snd t))) green_time) 0"

text \<open>
  Modelled from the spec: the centroid (step 4) of a membership function sampled at the
  points of a universe; the library's \<open>defuzz\<close> is missing.
\<close>

definition centroid :: "real list \<Rightarrow> (real \<Rightarrow> real) \<Rightarrow> real" where
  "centroid xs mu = (\<Sum>x\<leftarrow>xs. x * mu x) / (\<Sum>x\<leftarrow>xs. mu x)"

text \<open>
  Modelled from the spec: defuzzification (step 4) over the universe \<open>[10, 90]\<close> at step 1,
  with the midpoint of the universe when all aggregated strengths are exactly 0; the
  library's \<open>compute\<close> is missing.
\<close>

definition infer :: "real \<Rightarrow> real \<Rightarrow> real" where
  "infer q w =
     (if list_all (\<lambda>t. aggregated q w (fst t) = 0) green_time
      then (10 + 90) / 2
      else centroid green_time_universe (clipped q w))"

subsection \<open>The controller object and compute\_green\_time\<close>

text \<open>
  \<open>self.controller\<close> is a mutable simulation object: the source writes its \<open>input\<close>
  dictionary, calls \<open>compute()\<close> and reads its \<open>output\<close> dictionary. The model passes
  that object explicitly; the two dictionaries are the fields \<open>sim_input\<close> and
  \<open>sim_output\<close>.
\<close>

record controller =
  sim_input :: "string \<rightharpoonup> real"
  sim_output :: "string \<rightharpoonup> real"

text \<open>\<open>ctrl.ControlSystemSimulation(self.control_system)\<close>: nothing set yet.\<close>

definition setup_fuzzy_system :: controller where
  "setup_fuzzy_system = \<lparr>sim_input = Map.empty, sim_output = Map.empty\<rparr>"

text \<open>
  Modelled from the spec: the library's \<open>compute\<close> is missing; by section 4.1 it maps the
  two inputs stored in the simulation object to the inferred value, stored under
  \<open>green_time\<close>. A simulation object with an input not set is refused.
\<close>

definition compute :: "controller \<Rightarrow> error + controller" where
  "compute c =
     (case sim_input c ''queue_length'' of
        None \<Rightarrow> Inl ValueError
      | Some q \<Rightarrow>
          (case sim_input c ''waiting_time'' of
             None \<Rightarrow> Inl ValueError
           | Some w \<Rightarrow> Inr (c\<lparr>sim_output := (sim_output c)(''green_time'' \<mapsto> infer q w)\<rparr>)))"

definition compute_green_time :: "controller \<Rightarrow> real \<Rightarrow> real \<Rightarrow> error + (real \<times> controller)" where
  "compute_green_time self queue_len wait_time =
     (let queue_len = max 0 (min 50 queue_len);
          wait_time = max 0 (min 300 wait_time);
          self = self\<lparr>sim_input := (sim_input self)(''queue_length'' \<mapsto> queue_len)\<rparr>;
          self = self\<lparr>sim_input := (sim_input self)(''waiting_time'' \<mapsto> wait_time)\<rparr>
      in case compute self of
           Inl e \<Rightarrow> Inl e
         | Inr self \<Rightarrow>
             (case sim_output self ''green_time'' of
                None \<Rightarrow> Inl KeyError
              | Some g \<Rightarrow> Inr (g, self)))"

section \<open>traffic\_simulation.py\<close>

subsection \<open>The simulator's readings at one step\<close>

text \<open>
  What the TraCI calls of one simulation step return: the clock, and per lane or vehicle
  the halting number, the vehicle ids and the waiting time.
\<close>

record traci =
  getTime :: real
  getLastStepHaltingNumber :: "string \<Rightarrow> int"
  getLastStepVehicleIDs :: "string \<Rightarrow> string list"
  getWaitingTime :: "string \<Rightarrow> real"
  getIDList :: "string list"

subsection \<open>get\_lane\_metrics\<close>

text \<open>The inner loop over the vehicles of a lane, lines 68 to 71.\<close>

fun vehicle_loop :: "traci \<Rightarrow> string list \<Rightarrow> real \<times> nat \<Rightarrow> real \<times> nat" where
  "vehicle_loop env [] acc = acc"
| "vehicle_loop env (veh # vehicles) (total_waiting, vehicle_count) =
     vehicle_loop env vehicles (total_waiting + getWaitingTime env veh, vehicle_count + 1)"

text \<open>The outer loop over the lanes, lines 63 to 71.\<close>

fun lane_loop :: "traci \<Rightarrow> string list \<Rightarrow> int \<times> real \<times> nat \<Rightarrow> int \<times> real \<times> nat" where
  "lane_loop env [] acc = acc"
| "lane_loop env (lane # rest) (total_queue, total_waiting, vehicle_count) =
     (let halting = getLastStepHaltingNumber env lane;
          total_queue = total_queue + halting;
          vehicles = getLastStepVehicleIDs env lane
      in case vehicle_loop env vehicles (total_waiting, vehicle_count) of
           (total_waiting, vehicle_count) \<Rightarrow>
             lane_loop env rest (total_queue, total_waiting, vehicle_count))"

text \<open>Python's \<open>/\<close> raises on a zero divisor.\<close>

definition true_div :: "real \<Rightarrow> real \<Rightarrow> error + real" where
  "true_div a b = (if b = 0 then Inl ZeroDivisionError else Inr (a / b))"

definition get_lane_metrics :: "traci \<Rightarrow> string list \<Rightarrow> error + (int \<times> real)" where
  "get_lane_metrics env ls =
     (case lane_loop env ls (0, 0, 0) of
        (total_queue, total_waiting, vehicle_count) \<Rightarrow>
          if vehicle_count > 0
          then (case true_div total_waiting (real vehicle_count) of
                  Inl e \<Rightarrow> Inl e
                | Inr avg_waiting \<Rightarrow> Inr (total_queue, avg_waiting))
          else Inr (total_queue, 0))"

text \<open>
  The quantities the spec names for the sensor interface: the halting vehicles, the vehicles
  present and their waiting times, summed over the lanes of a direction.
\<close>

definition halting_total :: "traci \<Rightarrow> string list \<Rightarrow> int" where
  "halting_total env ls = sum_list (map (getLastStepHaltingNumber env) ls)"

definition vehicles_present :: "traci \<Rightarrow> string list \<Rightarrow> string list" where
  "vehicles_present env ls = concat (map (getLastStepVehicleIDs env) ls)"

definition waiting_total :: "traci \<Rightarrow> string list \<Rightarrow> real" where
  "waiting_total env ls = sum_list (map (getWaitingTime env) (vehicles_present env ls))"

text \<open>
  A lane's halting number counts vehicles among those the same lane reports, so it lies
  between 0 and the number of reported vehicles.
\<close>

definition halting_consistent :: "traci \<Rightarrow> string list \<Rightarrow> bool" where
  "halting_consistent env ls =
     list_all (\<lambda>l. 0 \<le> getLastStepHaltingNumber env l \<and>
                   getLastStepHaltingNumber env l \<le> int (length (getLastStepVehicleIDs env l))) ls"

subsection \<open>The simulation object\<close>

definition phases :: "string \<rightharpoonup> nat" where
  "phases = map_of [(''NS_green'', 0), (''NS_yellow'', 1), (''EW_green'', 2), (''EW_yellow'', 3)]"

definition yellow_time :: real where
  "yellow_time = 3"

definition tl_id :: string where
  "tl_id = ''0''"

definition lanes :: "string \<rightharpoonup> string list" where
  "lanes = map_of
     [(''NS'', [''N2C_0'', ''N2C_1'', ''S2C_0'', ''S2C_1'']),
      (''EW'', [''E2C_0'', ''E2C_1'', ''W2C_0'', ''W2C_1''])]"

text \<open>
  The mutable fields of \<open>TrafficSimulation\<close>, the local \<open>current_green_time\<close> of
  \<open>run_simulation\<close>, and the commands sent to the traffic light so far.
\<close>

record simulation =
  fuzzy_controller :: controller
  current_phase :: string
  phase_start_time :: real
  total_waiting_time :: real
  total_vehicles :: nat
  phase_changes :: nat
  avg_queue_lengths :: "int list"
  avg_waiting_times :: "real list"
  current_green_time :: real
  setPhase_calls :: "(string \<times> nat) list"

text \<open>\<open>__init__\<close> followed by the first lines of \<open>run_simulation\<close>.\<close>

definition init_simulation :: simulation where
  "init_simulation =
     \<lparr>fuzzy_controller = setup_fuzzy_system,
      current_phase = ''NS_green'',
      phase_start_time = 0,
      total_waiting_time = 0,
      total_vehicles = 0,
      phase_changes = 0,
      avg_queue_lengths = [],
      avg_waiting_times = [],
      current_green_time = 30,
      setPhase_calls = []\<rparr>"

definition compute_optimal_green_time ::
    "traci \<Rightarrow> string \<Rightarrow> simulation \<Rightarrow> error + (real \<times> simulation)" where
  "compute_optimal_green_time env direction self =
     (case lanes direction of
        None \<Rightarrow> Inl KeyError
      | Some ls \<Rightarrow>
          (case get_lane_metrics env ls of
             Inl e \<Rightarrow> Inl e
           | Inr (queue_len, wait_time) \<Rightarrow>
               (case compute_green_time (fuzzy_controller self) (real_of_int queue_len) wait_time of
                  Inl e \<Rightarrow> Inl e
                | Inr (g, fc) \<Rightarrow>
                    Inr (g, self\<lparr>fuzzy_controller := fc,
                                 avg_queue_lengths := avg_queue_lengths self @ [queue_len],
                                 avg_waiting_times := avg_waiting_times self @ [wait_time]\<rparr>))))"

definition set_traffic_light_phase :: "traci \<Rightarrow> string \<Rightarrow> simulation \<Rightarrow> error + simulation" where
  "set_traffic_light_phase env phase_name self =
     (case phases phase_name of
        None \<Rightarrow> Inl KeyError
      | Some phase_index \<Rightarrow>
          Inr (self\<lparr>setPhase_calls := setPhase_calls self @ [(tl_id, phase_index)],
                    current_phase := phase_name,
                    phase_start_time := getTime env\<rparr>))"

subsection \<open>run\_simulation\<close>

text \<open>The \<open>if\<close>/\<open>elif\<close> chain of the loop body, lines 103 to 128.\<close>

definition phase_step :: "traci \<Rightarrow> simulation \<Rightarrow> error + simulation" where
  "phase_step env self =
     (let current_time = getTime env;
          elapsed = current_time - phase_start_time self
      in if current_phase self = ''NS_green'' then
           (if elapsed \<ge> current_green_time self then
              (case set_traffic_light_phase env ''NS_yellow'' self of
                 Inl e \<Rightarrow> Inl e
               | Inr self \<Rightarrow> Inr (self\<lparr>phase_changes := phase_changes self + 1\<rparr>))
            else Inr self)
         else if current_phase self = ''NS_yellow'' then
           (if elapsed \<ge> yellow_time then
              (case compute_optimal_green_time env ''EW'' self of
                 Inl e \<Rightarrow> Inl e
               | Inr (g, self) \<Rightarrow>
                   set_traffic_light_phase env ''EW_green'' (self\<lparr>current_green_time := g\<rparr>))
            else Inr self)
         else if current_phase self = ''EW_green'' then
           (if elapsed \<ge> current_green_time self then
              (case set_traffic_light_phase env ''EW_yellow'' self of
                 Inl e \<Rightarrow> Inl e
               | Inr self \<Rightarrow> Inr (self\<lparr>phase_changes := phase_changes self + 1\<rparr>))
            else Inr self)
         else if current_phase self = ''EW_yellow'' then
           (if elapsed \<ge> yellow_time then
              (case compute_optimal_green_time env ''NS'' self of
                 Inl e \<Rightarrow> Inl e
               | Inr (g, self) \<Rightarrow>
                   set_traffic_light_phase env ''NS_green'' (self\<lparr>current_green_time := g\<rparr>))
            else Inr self)
         else Inr self)"

text \<open>One iteration of the \<open>while\<close> loop: the phase logic, then the statistics, lines 130 to 134.\<close>

definition loop_body :: "traci \<Rightarrow> simulation \<Rightarrow> error + simulation" where
  "loop_body env self =
     (case phase_step env self of
        Inl e \<Rightarrow> Inl e
      | Inr self \<Rightarrow>
          (let vehicles = getIDList env
           in Inr (self\<lparr>total_vehicles := length vehicles,
                        total_waiting_time :=
                          foldl (\<lambda>t veh. t + getWaitingTime env veh) (total_waiting_time self) vehicles\<rparr>)))"

text \<open>
  The loop itself: one element of the list for each step the simulator makes, holding what
  TraCI reports at that step. An exception ends the run.
\<close>

fun run_loop :: "traci list \<Rightarrow> simulation \<Rightarrow> error + simulation" where
  "run_loop [] self = Inr self"
| "run_loop (env # envs) self =
     (case loop_body env self of
        Inl e \<Rightarrow> Inl e
      | Inr self \<Rightarrow> run_loop envs self)"

definition run_simulation :: "traci list \<Rightarrow> error + simulation" where
  "run_simulation envs = run_loop envs init_simulation"

subsection \<open>Signal colours of the four phases\<close>

text \<open>
  The table printed by \<open>build_network.py\<close> (lines 57 to 60) for the phase indices of the
  traffic light program: the colours shown to NS and to EW.
\<close>

datatype colour = GREEN | YELLOW | RED

definition phase_colours :: "nat \<rightharpoonup> colour \<times> colour" where
  "phase_colours = map_of [(0, (GREEN, RED)), (1, (YELLOW, RED)), (2, (RED, GREEN)), (3, (RED, YELLOW))]"

definition signals :: "string \<rightharpoonup> colour \<times> colour" where
  "signals phase_name =
     (case phases phase_name of None \<Rightarrow> None | Some phase_index \<Rightarrow> phase_colours phase_index)"

definition safe_phase :: "string \<Rightarrow> bool" where
  "safe_phase phase_name =
     (case signals phase_name of
        None \<Rightarrow> False
      | Some (ns, ew) \<Rightarrow> (ns = RED \<or> ew = RED) \<and> \<not> (ns = RED \<and> ew = RED))"

definition defined_phases :: "string list" where
  "defined_phases = [''NS_green'', ''NS_yellow'', ''EW_green'', ''EW_yellow'']"

section \<open>Derived notions used in the statements\<close>

text \<open>
  The average waiting time as the spec words it (section 6): total waiting time over the
  vehicles present, or 0 when there are none.
\<close>

definition average_waiting :: "traci \<Rightarrow> string list \<Rightarrow> real" where
  "average_waiting env ls =
     (if 0 < length (vehicles_present env ls)
      then waiting_total env ls / real (length (vehicles_present env ls))
      else 0)"

text \<open>
  The value the engine yields on the measurements of a list of lanes: the inference applied to
  the clamped queue and average waiting time.
\<close>

definition direction_green_time :: "traci \<Rightarrow> string list \<Rightarrow> real" where
  "direction_green_time env ls =
     infer (max 0 (min 50 (real_of_int (halting_total env ls))))
           (max 0 (min 300 (average_waiting env ls)))"

text \<open>
  The number of steps of a run at which the phase changes; the count stops at a step that
  raises.
\<close>

fun transition_count :: "traci list \<Rightarrow> simulation \<Rightarrow> nat" where
  "transition_count [] self = 0"
| "transition_count (env # envs) self =
     (case loop_body env self of
        Inl e \<Rightarrow> 0
      | Inr self' \<Rightarrow>
          (if current_phase self' \<noteq> current_phase self then 1 else 0)
          + transition_count envs self')"

text \<open>
  The per-tick contract of the spec (section 4.2): green and yellow phases, the fixed cycle,
  and the expiry test of the phase a state is in.
\<close>

definition is_green :: "string \<Rightarrow> bool" where
  "is_green p = (p = ''NS_green'' \<or> p = ''EW_green'')"

definition is_yellow :: "string \<Rightarrow> bool" where
  "is_yellow p = (p = ''NS_yellow'' \<or> p = ''EW_yellow'')"

definition next_phase :: "string \<Rightarrow> string" where
  "next_phase p =
     (if p = ''NS_green'' then ''NS_yellow''
      else if p = ''NS_yellow'' then ''EW_green''
      else if p = ''EW_green'' then ''EW_yellow''
      else if p = ''EW_yellow'' then ''NS_green''
      else p)"

definition expired :: "traci \<Rightarrow> simulation \<Rightarrow> bool" where
  "expired env self =
     (is_green (current_phase self) \<and> current_green_time self \<le> getTime env - phase_start_time self
      \<or> is_yellow (current_phase self) \<and> yellow_time \<le> getTime env - phase_start_time self)"

text \<open>
  A concrete run for the examples: an intersection without vehicles, read at the times 30, 33,
  200 and 203.
\<close>

definition empty_road :: "real \<Rightarrow> traci" where
  "empty_road t =
     \<lparr>getTime = t, getLastStepHaltingNumber = (\<lambda>l. 0), getLastStepVehicleIDs = (\<lambda>l. []),
      getWaitingTime = (\<lambda>v. 0), getIDList = []\<rparr>"

definition example_run :: "traci list" where
  "example_run = [empty_road 30, empty_road 33, empty_road 200, empty_road 203]"

section \<open>The sensor aggregation\<close>

lemma vehicle_loop_eq:
  "vehicle_loop env vs (t, n) = (t + sum_list (map (getWaitingTime env) vs), n + length vs)"
  by (induction vs arbitrary: t n) (simp_all add: add.assoc)

lemma lane_loop_eq:
  "lane_loop env ls (q, t, n) =
     (q + halting_total env ls, t + waiting_total env ls, n + length (vehicles_present env ls))"
proof (induction ls arbitrary: q t n)
  case Nil
  show ?case by (simp add: halting_total_def waiting_total_def vehicles_present_def)
next
  case (Cons l ls)
  show ?case
    using Cons.IH
    by (simp add: vehicle_loop_eq halting_total_def waiting_total_def vehicles_present_def
        add.assoc Let_def)
qed

lemma get_lane_metrics_explicit:
  "get_lane_metrics env ls =
     Inr (halting_total env ls,
          if 0 < length (vehicles_present env ls)
          then waiting_total env ls / real (length (vehicles_present env ls))
          else 0)"
  by (simp add: get_lane_metrics_def lane_loop_eq true_div_def)

lemma get_lane_metrics_eq:
  "get_lane_metrics env ls = Inr (halting_total env ls, average_waiting env ls)"
  by (simp add: get_lane_metrics_explicit average_waiting_def)

lemma halting_total_zero:
  "halting_consistent env ls \<Longrightarrow> vehicles_present env ls = [] \<Longrightarrow> halting_total env ls = 0"
  by (induction ls) (simp_all add: halting_consistent_def vehicles_present_def halting_total_def)

lemma get_lane_metrics_example:
  "get_lane_metrics
     \<lparr>getTime = 0, getLastStepHaltingNumber = (\<lambda>l. if l = ''a'' then 2 else 0),
      getLastStepVehicleIDs = (\<lambda>l. if l = ''a'' then [''v1'', ''v2'', ''v3''] else []),
      getWaitingTime = (\<lambda>v. if v = ''v1'' then 10 else 4), getIDList = []\<rparr> [''a'', ''b'']
   = Inr (2, 6)"
  by (simp add: get_lane_metrics_def true_div_def)

text \<open>
  C9. For every list of lanes \<open>get_lane_metrics\<close> returns a pair and never raises
  \<open>ZeroDivisionError\<close>: the queue is the sum of the halting numbers, the average is the
  total waiting time divided by the number of vehicles present when that number is positive
  and 0 otherwise. When no vehicle is present on any of the lanes (and the halting numbers
  are those of such lanes) the result is \<open>(0, 0)\<close>.
\<close>

theorem get_lane_metrics_never_divides_by_zero:
  "get_lane_metrics env ls =
     Inr (halting_total env ls,
          if 0 < length (vehicles_present env ls)
          then waiting_total env ls / real (length (vehicles_present env ls))
          else 0)
   \<and> (halting_consistent env ls \<and> vehicles_present env ls = [] \<longrightarrow>
        get_lane_metrics env ls = Inr (0, 0))"
  by (simp add: get_lane_metrics_explicit halting_total_zero)

theorem get_lane_metrics_never_divides_by_zero_witness:
  "halting_consistent
     \<lparr>getTime = 0, getLastStepHaltingNumber = (\<lambda>l. 0), getLastStepVehicleIDs = (\<lambda>l. []),
      getWaitingTime = (\<lambda>v. 0), getIDList = []\<rparr> [''N2C_0'', ''N2C_1'', ''S2C_0'', ''S2C_1'']
   \<and> vehicles_present
     \<lparr>getTime = 0, getLastStepHaltingNumber = (\<lambda>l. 0), getLastStepVehicleIDs = (\<lambda>l. []),
      getWaitingTime = (\<lambda>v. 0), getIDList = []\<rparr> [''N2C_0'', ''N2C_1'', ''S2C_0'', ''S2C_1''] = []
   \<and> get_lane_metrics
     \<lparr>getTime = 0, getLastStepHaltingNumber = (\<lambda>l. 0), getLastStepVehicleIDs = (\<lambda>l. []),
      getWaitingTime = (\<lambda>v. 0), getIDList = []\<rparr> [''N2C_0'', ''N2C_1'', ''S2C_0'', ''S2C_1'']
     = Inr (0, 0)"
  using get_lane_metrics_never_divides_by_zero
    [of "\<lparr>getTime = 0, getLastStepHaltingNumber = (\<lambda>l. 0), getLastStepVehicleIDs = (\<lambda>l. []),
      getWaitingTime = (\<lambda>v. 0), getIDList = []\<rparr>" "[''N2C_0'', ''N2C_1'', ''S2C_0'', ''S2C_1'']"]
  by (simp add: halting_consistent_def vehicles_present_def halting_total_def)

section \<open>The decision engine\<close>

lemma trimf_nonneg: "a \<le> b \<Longrightarrow> b \<le> c \<Longrightarrow> 0 \<le> trimf x (a, b, c)"
  by (simp add: trimf_def)

lemma trimf_le_one: "a \<le> b \<Longrightarrow> b \<le> c \<Longrightarrow> trimf x (a, b, c) \<le> 1"
  by (simp add: trimf_def)

lemma trimf_peak: "trimf b (a, b, c) = 1"
  by (simp add: trimf_def)

lemma membership_queue_nonneg: "0 \<le> membership queue_length lbl x"
  by (simp add: membership_def queue_length_def trimf_nonneg)

lemma membership_waiting_nonneg: "0 \<le> membership waiting_time lbl x"
  by (simp add: membership_def waiting_time_def trimf_nonneg)

lemma firing_nonneg: "0 \<le> firing q w r"
  by (cases r) (simp add: firing_def membership_queue_nonneg membership_waiting_nonneg)

lemma foldr_max_nonneg: "(0::real) \<le> foldr max xs 0"
  by (induction xs) simp_all

lemma foldr_max_upper: "x \<in> set xs \<Longrightarrow> x \<le> foldr max xs (0::real)"
  by (induction xs) auto

lemma aggregated_nonneg: "0 \<le> aggregated q w gl"
  by (simp add: aggregated_def foldr_max_nonneg)

lemma clipped_nonneg: "0 \<le> clipped q w x"
  by (simp add: clipped_def foldr_max_nonneg)

lemma aggregated_short:
  "aggregated q w ''short'' =
     max (firing q w (''low'', ''short'', ''short'')) (firing q w (''low'', ''medium'', ''short''))"
  using firing_nonneg [of q w "(''low'', ''medium'', ''short'')"]
  by (simp add: aggregated_def rules_def)

lemma aggregated_medium:
  "aggregated q w ''medium'' =
     max (firing q w (''low'', ''long'', ''medium''))
       (max (firing q w (''medium'', ''short'', ''medium''))
         (max (firing q w (''medium'', ''medium'', ''medium''))
              (firing q w (''high'', ''short'', ''medium''))))"
  using firing_nonneg [of q w "(''high'', ''short'', ''medium'')"]
  by (simp add: aggregated_def rules_def)

lemma aggregated_long:
  "aggregated q w ''long'' =
     max (firing q w (''medium'', ''long'', ''long''))
       (max (firing q w (''high'', ''medium'', ''long''))
            (firing q w (''high'', ''long'', ''long'')))"
  using firing_nonneg [of q w "(''high'', ''long'', ''long'')"]
  by (simp add: aggregated_def rules_def)

lemma clipped_eq:
  "clipped q w x =
     max (min (aggregated q w ''short'') (trimf x (10, 10, 30)))
       (max (min (aggregated q w ''medium'') (trimf x (25, 50, 75)))
            (min (aggregated q w ''long'') (trimf x (60, 90, 90))))"
  using aggregated_nonneg [of q w "''long''"] trimf_nonneg [of 60 90 90 x]
  by (simp add: clipped_def green_time_def)

lemma rules_labels_defined:
  "list_all (\<lambda>r. case r of (ql, wl, gl) \<Rightarrow>
      map_of queue_length ql \<noteq> None \<and> map_of waiting_time wl \<noteq> None \<and> map_of green_time gl \<noteq> None)
    rules"
  by (simp add: rules_def queue_length_def waiting_time_def green_time_def)

lemma universe_members: "x \<in> set green_time_universe \<Longrightarrow> 10 \<le> x \<and> x \<le> 90"
  by (auto simp: green_time_universe_def)

lemma universe_has_peaks:
  "10 \<in> set green_time_universe" "50 \<in> set green_time_universe" "90 \<in> set green_time_universe"
  by (auto simp: green_time_universe_def image_iff intro: bexI [of _ 10] bexI [of _ 50] bexI [of _ 90])

lemma sum_list_map_pos:
  fixes f :: "real \<Rightarrow> real"
  assumes "\<And>x. x \<in> set xs \<Longrightarrow> 0 \<le> f x" and "x \<in> set xs" and "0 < f x"
  shows "0 < sum_list (map f xs)"
  using assms
proof (induction xs)
  case Nil
  then show ?case by simp
next
  case (Cons y ys)
  have tail: "0 \<le> sum_list (map f ys)"
    by (rule sum_list_nonneg) (use Cons.prems(1) in auto)
  show ?case
  proof (cases "x = y")
    case True
    with Cons.prems(3) tail show ?thesis by simp
  next
    case False
    with Cons.prems have "x \<in> set ys" by simp
    then have "0 < sum_list (map f ys)"
      using Cons.IH Cons.prems by simp
    moreover have "0 \<le> f y" using Cons.prems(1) by simp
    ultimately show ?thesis by simp
  qed
qed

lemma sum_list_shifted:
  fixes mu :: "real \<Rightarrow> real"
  shows "(\<Sum>x\<leftarrow>xs. (x - k) * mu x) = (\<Sum>x\<leftarrow>xs. x * mu x) - k * (\<Sum>x\<leftarrow>xs. mu x)"
  by (induction xs) (simp_all add: algebra_simps)

lemma clipped_positive_somewhere:
  assumes "\<not> list_all (\<lambda>t. aggregated q w (fst t) = 0) green_time"
  shows "\<exists>x\<in>set green_time_universe. 0 < clipped q w x"
proof -
  from assms consider "aggregated q w ''short'' \<noteq> 0" | "aggregated q w ''medium'' \<noteq> 0"
    | "aggregated q w ''long'' \<noteq> 0"
    by (auto simp: green_time_def)
  then show ?thesis
  proof cases
    case 1
    then have "0 < aggregated q w ''short''"
      using aggregated_nonneg [of q w "''short''"] by simp
    then have "0 < clipped q w 10"
      by (simp add: clipped_eq trimf_peak)
    then show ?thesis using universe_has_peaks(1) by blast
  next
    case 2
    then have "0 < aggregated q w ''medium''"
      using aggregated_nonneg [of q w "''medium''"] by simp
    then have "0 < clipped q w 50"
      by (simp add: clipped_eq trimf_peak)
    then show ?thesis using universe_has_peaks(2) by blast
  next
    case 3
    then have "0 < aggregated q w ''long''"
      using aggregated_nonneg [of q w "''long''"] by simp
    then have "0 < clipped q w 90"
      by (simp add: clipped_eq trimf_peak)
    then show ?thesis using universe_has_peaks(3) by blast
  qed
qed

lemma clipped_mass_positive:
  assumes "\<not> list_all (\<lambda>t. aggregated q w (fst t) = 0) green_time"
  shows "0 < (\<Sum>x\<leftarrow>green_time_universe. clipped q w x)"
proof -
  from clipped_positive_somewhere [OF assms]
  obtain x where "x \<in> set green_time_universe" "0 < clipped q w x" by blast
  then show ?thesis
    using sum_list_map_pos [of green_time_universe "clipped q w" x] clipped_nonneg by simp
qed

lemma infer_bounds: "10 \<le> infer q w \<and> infer q w \<le> 90"
proof (cases "list_all (\<lambda>t. aggregated q w (fst t) = 0) green_time")
  case True
  then show ?thesis by (simp add: infer_def)
next
  case False
  let ?N = "\<Sum>x\<leftarrow>green_time_universe. x * clipped q w x"
  let ?D = "\<Sum>x\<leftarrow>green_time_universe. clipped q w x"
  have D: "0 < ?D" by (rule clipped_mass_positive [OF False])
  have "0 \<le> (\<Sum>x\<leftarrow>green_time_universe. (x - 10) * clipped q w x)"
    by (rule sum_list_nonneg) (use universe_members clipped_nonneg in auto)
  then have lo: "10 * ?D \<le> ?N" by (simp add: sum_list_shifted)
  have "(\<Sum>x\<leftarrow>green_time_universe. (x - 90) * clipped q w x) \<le> 0"
    by (rule sum_list_nonpos) (use universe_members clipped_nonneg in \<open>auto simp: mult_le_0_iff\<close>)
  then have hi: "?N \<le> 90 * ?D" by (simp add: sum_list_shifted)
  have "infer q w = ?N / ?D" using False by (simp add: infer_def centroid_def)
  then show ?thesis using D lo hi by (simp add: pos_le_divide_eq pos_divide_le_eq)
qed

lemma compute_green_time_eq:
  "compute_green_time c q w =
     Inr (infer (max 0 (min 50 q)) (max 0 (min 300 w)),
          c\<lparr>sim_input := (sim_input c)(''queue_length'' \<mapsto> max 0 (min 50 q),
                                        ''waiting_time'' \<mapsto> max 0 (min 300 w)),
            sim_output := (sim_output c)(''green_time'' \<mapsto>
                infer (max 0 (min 50 q)) (max 0 (min 300 w)))\<rparr>)"
  by (simp add: compute_green_time_def compute_def Let_def)

text \<open>
  C1. For every pair of inputs, in range or not, and whatever state the controller object is
  in, \<open>compute_green_time\<close> returns a value (it does not raise), and the value lies
  in \<open>[10, 90]\<close>.
\<close>

theorem compute_green_time_bounded:
  "\<exists>g c'. compute_green_time c q w = Inr (g, c') \<and> 10 \<le> g \<and> g \<le> 90"
  by (simp add: compute_green_time_eq infer_bounds)

text \<open>
  C4. \<open>compute_green_time\<close> on \<open>(q, w)\<close> is \<open>compute_green_time\<close> on the clamped
  pair: the result and the state of the controller object afterwards are the same, and a
  result is returned, for measurements outside the universes too.
\<close>

theorem compute_green_time_clamps:
  "compute_green_time c q w = compute_green_time c (max 0 (min 50 q)) (max 0 (min 300 w))
   \<and> (\<exists>g c'. compute_green_time c q w = Inr (g, c'))"
  by (simp add: compute_green_time_eq)

text \<open>
  C8. The value \<open>compute_green_time\<close> returns is a function of the two inputs alone: for
  each input pair there is one value that every call returns, whatever the state of the
  controller object before the call (fresh from \<open>setup_fuzzy_system\<close>, or left behind by
  any earlier calls).
\<close>

theorem compute_green_time_deterministic:
  "\<exists>g. \<forall>c. \<exists>c'. compute_green_time c q w = Inr (g, c')"
  by (auto simp add: compute_green_time_eq)

lemma trimf_medium_mirror: "trimf (100 - x) (25, 50, 75) = trimf x (25, 50, 75)"
  by (auto simp: trimf_def field_simps)

lemma universe_sum_set:
  "(\<Sum>x\<leftarrow>green_time_universe. h x) = (\<Sum>i\<in>{10..90::int}. h (real_of_int i))"
proof -
  have "(\<Sum>x\<leftarrow>green_time_universe. h x) = (\<Sum>i\<leftarrow>[10..90]. h (real_of_int i))"
    by (simp only: green_time_universe_def map_map comp_def)
  also have "\<dots> = (\<Sum>i\<in>set [10..90]. h (real_of_int i))"
    by (rule sum_set_upto_conv_sum_list_int [symmetric])
  also have "\<dots> = (\<Sum>i\<in>{10..90::int}. h (real_of_int i))"
    by (simp only: set_upto)
  finally show ?thesis .
qed

lemma medium_moment_zero:
  "(\<Sum>x\<leftarrow>green_time_universe. (x - 50) * min b (trimf x (25, 50, 75))) = 0"
proof -
  let ?g = "\<lambda>i::int. (real_of_int i - 50) * min b (trimf (real_of_int i) (25, 50, 75))"
  have "(\<Sum>i\<in>{10..90}. ?g i) = (\<Sum>i\<in>{10..90}. ?g (100 - i))"
    by (rule sum.reindex_bij_witness [where i = "\<lambda>i. 100 - i" and j = "\<lambda>i. 100 - i"]) auto
  also have "\<dots> = (\<Sum>i\<in>{10..90}. - ?g i)"
    by (rule sum.cong) (simp_all add: trimf_medium_mirror algebra_simps)
  also have "\<dots> = - (\<Sum>i\<in>{10..90}. ?g i)"
    by (simp add: sum_negf)
  finally have "(\<Sum>i\<in>{10..90}. ?g i) = 0" by simp
  then show ?thesis by (simp add: universe_sum_set)
qed

lemma clipped_low_pointwise:
  assumes "aggregated q w ''long'' = 0"
  shows "(x - 50) * clipped q w x \<le> (x - 50) * min (aggregated q w ''medium'') (trimf x (25, 50, 75))"
proof (cases "x < 30")
  case True
  have "min (aggregated q w ''medium'') (trimf x (25, 50, 75)) \<le> clipped q w x"
    by (simp add: clipped_eq)
  with True show ?thesis by (simp add: mult_left_mono_neg)
next
  case False
  then have "trimf x (10, 10, 30) = 0" by (simp add: trimf_def)
  then have "clipped q w x = min (aggregated q w ''medium'') (trimf x (25, 50, 75))"
    using assms aggregated_nonneg [of q w "''short''"] aggregated_nonneg [of q w "''medium''"]
      trimf_nonneg [of 25 50 75 x] trimf_nonneg [of 60 90 90 x]
    by (simp add: clipped_eq)
  then show ?thesis by simp
qed

lemma clipped_high_pointwise:
  assumes "aggregated q w ''short'' = 0"
  shows "(x - 50) * min (aggregated q w ''medium'') (trimf x (25, 50, 75)) \<le> (x - 50) * clipped q w x"
proof (cases "60 < x")
  case True
  have "min (aggregated q w ''medium'') (trimf x (25, 50, 75)) \<le> clipped q w x"
    by (simp add: clipped_eq)
  with True show ?thesis by (simp add: mult_left_mono)
next
  case False
  then have "trimf x (60, 90, 90) = 0" by (simp add: trimf_def)
  then have "clipped q w x = min (aggregated q w ''medium'') (trimf x (25, 50, 75))"
    using assms aggregated_nonneg [of q w "''long''"] aggregated_nonneg [of q w "''medium''"]
      trimf_nonneg [of 25 50 75 x] trimf_nonneg [of 10 10 30 x]
    by (simp add: clipped_eq)
  then show ?thesis by simp
qed

lemma infer_no_long:
  assumes "aggregated q w ''long'' = 0"
  shows "infer q w \<le> 50"
proof (cases "list_all (\<lambda>t. aggregated q w (fst t) = 0) green_time")
  case True
  then show ?thesis by (simp add: infer_def)
next
  case False
  let ?N = "\<Sum>x\<leftarrow>green_time_universe. x * clipped q w x"
  let ?D = "\<Sum>x\<leftarrow>green_time_universe. clipped q w x"
  have D: "0 < ?D" by (rule clipped_mass_positive [OF False])
  have "(\<Sum>x\<leftarrow>green_time_universe. (x - 50) * clipped q w x)
        \<le> (\<Sum>x\<leftarrow>green_time_universe. (x - 50) * min (aggregated q w ''medium'') (trimf x (25, 50, 75)))"
    by (rule sum_list_mono) (rule clipped_low_pointwise [OF assms])
  also have "\<dots> = 0" by (rule medium_moment_zero)
  finally have "?N \<le> 50 * ?D" by (simp add: sum_list_shifted)
  moreover have "infer q w = ?N / ?D" using False by (simp add: infer_def centroid_def)
  ultimately show ?thesis using D by (simp add: pos_divide_le_eq)
qed

lemma infer_no_short:
  assumes "aggregated q w ''short'' = 0"
  shows "50 \<le> infer q w"
proof (cases "list_all (\<lambda>t. aggregated q w (fst t) = 0) green_time")
  case True
  then show ?thesis by (simp add: infer_def)
next
  case False
  let ?N = "\<Sum>x\<leftarrow>green_time_universe. x * clipped q w x"
  let ?D = "\<Sum>x\<leftarrow>green_time_universe. clipped q w x"
  have D: "0 < ?D" by (rule clipped_mass_positive [OF False])
  have "0 = (\<Sum>x\<leftarrow>green_time_universe. (x - 50) * min (aggregated q w ''medium'') (trimf x (25, 50, 75)))"
    by (rule medium_moment_zero [symmetric])
  also have "\<dots> \<le> (\<Sum>x\<leftarrow>green_time_universe. (x - 50) * clipped q w x)"
    by (rule sum_list_mono) (rule clipped_high_pointwise [OF assms])
  finally have "50 * ?D \<le> ?N" by (simp add: sum_list_shifted)
  moreover have "infer q w = ?N / ?D" using False by (simp add: infer_def centroid_def)
  ultimately show ?thesis using D by (simp add: pos_le_divide_eq)
qed

lemma low_queue_no_long: "q \<le> 10 \<Longrightarrow> aggregated q w ''long'' = 0"
  using membership_waiting_nonneg [of "''long''" w] membership_waiting_nonneg [of "''medium''" w]
  by (simp add: aggregated_long firing_def membership_def queue_length_def trimf_def)

lemma high_queue_no_short: "40 \<le> q \<Longrightarrow> aggregated q w ''short'' = 0"
  using membership_waiting_nonneg [of "''short''" w] membership_waiting_nonneg [of "''medium''" w]
  by (simp add: aggregated_short firing_def membership_def queue_length_def trimf_def)

lemma compute_green_time_result:
  "\<exists>c'. compute_green_time c q w = Inr (infer (max 0 (min 50 q)) (max 0 (min 300 w)), c')"
  by (simp add: compute_green_time_eq)

text \<open>
  C7. A queue length in the low region (at most 10, where only the term \<open>low\<close> has a
  positive degree) never yields a longer green time than a queue length in the high region
  (at least 40, where only \<open>high\<close> has one), whatever the two waiting times are; with
  equal waiting times this is the monotonic tendency, and the anchors \<open>(5, 30)\<close> and
  \<open>(45, 250)\<close> of the spec are an instance.
\<close>

theorem low_queue_green_time_le_high_queue:
  "q_lo \<le> 10 \<and> 40 \<le> q_hi \<longrightarrow>
     (\<exists>g_lo g_hi c1' c2'.
        compute_green_time c1 q_lo w = Inr (g_lo, c1') \<and>
        compute_green_time c2 q_hi w' = Inr (g_hi, c2') \<and> g_lo \<le> g_hi)"
proof
  assume a: "q_lo \<le> 10 \<and> 40 \<le> q_hi"
  then have "max 0 (min 50 q_lo) \<le> 10" and "40 \<le> max 0 (min 50 q_hi)"
    by simp_all
  then have "infer (max 0 (min 50 q_lo)) (max 0 (min 300 w)) \<le> 50"
    and "50 \<le> infer (max 0 (min 50 q_hi)) (max 0 (min 300 w'))"
    by (blast intro: infer_no_long low_queue_no_long infer_no_short high_queue_no_short)+
  then have le: "infer (max 0 (min 50 q_lo)) (max 0 (min 300 w))
      \<le> infer (max 0 (min 50 q_hi)) (max 0 (min 300 w'))"
    by (rule order_trans)
  obtain c1' where 1: "compute_green_time c1 q_lo w
      = Inr (infer (max 0 (min 50 q_lo)) (max 0 (min 300 w)), c1')"
    using compute_green_time_result by blast
  obtain c2' where 2: "compute_green_time c2 q_hi w'
      = Inr (infer (max 0 (min 50 q_hi)) (max 0 (min 300 w')), c2')"
    using compute_green_time_result by blast
  from 1 2 le show "\<exists>g_lo g_hi c1' c2'.
        compute_green_time c1 q_lo w = Inr (g_lo, c1') \<and>
        compute_green_time c2 q_hi w' = Inr (g_hi, c2') \<and> g_lo \<le> g_hi"
    by blast
qed

theorem low_queue_green_time_le_high_queue_witness:
  "(5::real) \<le> 10 \<and> (40::real) \<le> 45 \<and>
     (\<exists>g_lo g_hi c1' c2'.
        compute_green_time setup_fuzzy_system 5 30 = Inr (g_lo, c1') \<and>
        compute_green_time setup_fuzzy_system 45 250 = Inr (g_hi, c2') \<and> g_lo \<le> g_hi)"
  using low_queue_green_time_le_high_queue [of 5 45 setup_fuzzy_system 30 setup_fuzzy_system 250]
  by simp

text \<open>
  The sample scenario of the spec for the middle of both universes: only the rule
  medium and medium fires, and the centroid of the symmetric term \<open>medium\<close> is 50.
\<close>

lemma infer_medium_medium: "infer 25 150 = 50"
proof -
  have "aggregated 25 150 ''long'' = 0"
    by (simp add: aggregated_long firing_def membership_def queue_length_def waiting_time_def
        trimf_def)
  moreover have "aggregated 25 150 ''short'' = 0"
    by (simp add: aggregated_short firing_def membership_def queue_length_def waiting_time_def
        trimf_def)
  ultimately show ?thesis
    using infer_no_long [of 25 150] infer_no_short [of 25 150] by simp
qed

lemma compute_green_time_medium_medium:
  "\<exists>c'. compute_green_time setup_fuzzy_system 25 150 = Inr (50, c')"
  using compute_green_time_result [of setup_fuzzy_system 25 150] infer_medium_medium by simp

subsection \<open>Rule coverage\<close>

text \<open>
  After clamping, some term of each input variable has a positive degree and the rule table
  has a rule for every pair of terms, so at least one rule fires and the midpoint branch of
  the inference is not the one taken.
\<close>

lemma queue_length_covered:
  assumes "0 \<le> q" and "q \<le> 50"
  shows "\<exists>ql\<in>{''low'', ''medium'', ''high''}. 0 < membership queue_length ql q"
proof -
  consider "q < 15" | "15 \<le> q \<and> q \<le> 35" | "35 < q" by linarith
  then show ?thesis
  proof cases
    case 1
    then have "0 < membership queue_length ''low'' q"
      using assms by (simp add: membership_def queue_length_def trimf_def)
    then show ?thesis by blast
  next
    case 2
    then have "0 < membership queue_length ''medium'' q"
      by (simp add: membership_def queue_length_def trimf_def)
    then show ?thesis by blast
  next
    case 3
    then have "0 < membership queue_length ''high'' q"
      using assms by (simp add: membership_def queue_length_def trimf_def)
    then show ?thesis by blast
  qed
qed

lemma waiting_time_covered:
  assumes "0 \<le> w" and "w \<le> 300"
  shows "\<exists>wl\<in>{''short'', ''medium'', ''long''}. 0 < membership waiting_time wl w"
proof -
  consider "w < 100" | "100 \<le> w \<and> w \<le> 200" | "200 < w" by linarith
  then show ?thesis
  proof cases
    case 1
    then have "0 < membership waiting_time ''short'' w"
      using assms by (simp add: membership_def waiting_time_def trimf_def)
    then show ?thesis by blast
  next
    case 2
    then have "0 < membership waiting_time ''medium'' w"
      by (simp add: membership_def waiting_time_def trimf_def)
    then show ?thesis by blast
  next
    case 3
    then have "0 < membership waiting_time ''long'' w"
      using assms by (simp add: membership_def waiting_time_def trimf_def)
    then show ?thesis by blast
  qed
qed

lemma rules_complete:
  assumes "ql \<in> {''low'', ''medium'', ''high''}" and "wl \<in> {''short'', ''medium'', ''long''}"
  shows "\<exists>gl. (ql, wl, gl) \<in> set rules"
proof -
  from assms have "ql = ''low'' \<or> ql = ''medium'' \<or> ql = ''high''"
    and "wl = ''short'' \<or> wl = ''medium'' \<or> wl = ''long''"
    by simp_all
  then show ?thesis
    by (elim disjE) (simp_all add: rules_def)
qed

lemma some_rule_fires:
  "\<exists>r\<in>set rules. 0 < firing (max 0 (min 50 q)) (max 0 (min 300 w)) r"
proof -
  let ?q = "max 0 (min 50 q)" and ?w = "max 0 (min 300 w)"
  have "0 \<le> ?q" "?q \<le> 50" "0 \<le> ?w" "?w \<le> 300" by simp_all
  then obtain ql wl where
    ql: "ql \<in> {''low'', ''medium'', ''high''}" "0 < membership queue_length ql ?q" and
    wl: "wl \<in> {''short'', ''medium'', ''long''}" "0 < membership waiting_time wl ?w"
    using queue_length_covered [of ?q] waiting_time_covered [of ?w] by blast
  from rules_complete [OF ql(1) wl(1)] obtain gl where r: "(ql, wl, gl) \<in> set rules" by blast
  have "0 < firing ?q ?w (ql, wl, gl)"
    using ql(2) wl(2) by (simp add: firing_def)
  with r show ?thesis by blast
qed

lemma aggregated_covers_rule:
  assumes "(ql, wl, gl) \<in> set rules"
  shows "firing q w (ql, wl, gl) \<le> aggregated q w gl"
  unfolding aggregated_def
  by (rule foldr_max_upper) (use assms in \<open>auto simp: image_iff\<close>)

lemma rules_consequents:
  assumes "(ql, wl, gl) \<in> set rules"
  shows "gl = ''short'' \<or> gl = ''medium'' \<or> gl = ''long''"
  using assms by (simp add: rules_def) blast

lemma fired_rule_excludes_midpoint:
  assumes r: "(ql, wl, gl) \<in> set rules" and f: "0 < firing q w (ql, wl, gl)"
  shows "\<not> list_all (\<lambda>t. aggregated q w (fst t) = 0) green_time"
proof -
  have "0 < aggregated q w gl"
    using f aggregated_covers_rule [OF r, of q w] by linarith
  moreover note rules_consequents [OF r]
  ultimately show ?thesis
    by (auto simp: green_time_def)
qed

lemma midpoint_branch_unreachable:
  "\<not> list_all (\<lambda>t. aggregated (max 0 (min 50 q)) (max 0 (min 300 w)) (fst t) = 0) green_time"
proof -
  from some_rule_fires [of q w] obtain r where
    r: "r \<in> set rules" "0 < firing (max 0 (min 50 q)) (max 0 (min 300 w)) r"
    by blast
  obtain ql wl gl where "r = (ql, wl, gl)" by (cases r)
  with r show ?thesis
    by (simp add: fired_rule_excludes_midpoint)
qed

section \<open>The phase sequencer\<close>

lemma phases_lookup:
  "phases ''NS_green'' = Some 0" "phases ''NS_yellow'' = Some 1"
  "phases ''EW_green'' = Some 2" "phases ''EW_yellow'' = Some 3"
  by (simp_all add: phases_def)

lemma lanes_lookup:
  "lanes ''NS'' = Some [''N2C_0'', ''N2C_1'', ''S2C_0'', ''S2C_1'']"
  "lanes ''EW'' = Some [''E2C_0'', ''E2C_1'', ''W2C_0'', ''W2C_1'']"
  by (simp_all add: lanes_def)

lemma compute_green_time_direction:
  "\<exists>fc. compute_green_time c (real_of_int (halting_total env ls)) (average_waiting env ls)
     = Inr (direction_green_time env ls, fc)"
  unfolding direction_green_time_def by (rule compute_green_time_result)

lemma compute_optimal_green_time_result:
  assumes "lanes d = Some ls"
  shows "\<exists>fc. compute_optimal_green_time env d s =
     Inr (direction_green_time env ls,
          s\<lparr>fuzzy_controller := fc,
            avg_queue_lengths := avg_queue_lengths s @ [halting_total env ls],
            avg_waiting_times := avg_waiting_times s @ [average_waiting env ls]\<rparr>)"
proof -
  obtain fc where "compute_green_time (fuzzy_controller s) (real_of_int (halting_total env ls))
      (average_waiting env ls) = Inr (direction_green_time env ls, fc)"
    using compute_green_time_direction by blast
  then show ?thesis
    using assms
    by (auto simp add: compute_optimal_green_time_def get_lane_metrics_eq intro!: exI [of _ fc])
qed

lemma phase_step_NS_green:
  assumes "current_phase s = ''NS_green''"
  shows "phase_step env s =
     Inr (if current_green_time s \<le> getTime env - phase_start_time s
          then s\<lparr>setPhase_calls := setPhase_calls s @ [(tl_id, 1)],
                 current_phase := ''NS_yellow'',
                 phase_start_time := getTime env,
                 phase_changes := phase_changes s + 1\<rparr>
          else s)"
  using assms by (simp add: phase_step_def set_traffic_light_phase_def phases_lookup Let_def)

lemma phase_step_EW_green:
  assumes "current_phase s = ''EW_green''"
  shows "phase_step env s =
     Inr (if current_green_time s \<le> getTime env - phase_start_time s
          then s\<lparr>setPhase_calls := setPhase_calls s @ [(tl_id, 3)],
                 current_phase := ''EW_yellow'',
                 phase_start_time := getTime env,
                 phase_changes := phase_changes s + 1\<rparr>
          else s)"
  using assms by (simp add: phase_step_def set_traffic_light_phase_def phases_lookup Let_def)

lemma phase_step_NS_yellow:
  assumes "current_phase s = ''NS_yellow''" and "lanes ''EW'' = Some ls"
  shows "\<exists>fc. phase_step env s =
     Inr (if yellow_time \<le> getTime env - phase_start_time s
          then s\<lparr>fuzzy_controller := fc,
                 avg_queue_lengths := avg_queue_lengths s @ [halting_total env ls],
                 avg_waiting_times := avg_waiting_times s @ [average_waiting env ls],
                 current_green_time := direction_green_time env ls,
                 setPhase_calls := setPhase_calls s @ [(tl_id, 2)],
                 current_phase := ''EW_green'',
                 phase_start_time := getTime env\<rparr>
          else s)"
proof -
  obtain fc where "compute_optimal_green_time env ''EW'' s =
     Inr (direction_green_time env ls,
          s\<lparr>fuzzy_controller := fc,
            avg_queue_lengths := avg_queue_lengths s @ [halting_total env ls],
            avg_waiting_times := avg_waiting_times s @ [average_waiting env ls]\<rparr>)"
    using compute_optimal_green_time_result [OF assms(2)] by blast
  then show ?thesis
    using assms(1)
    by (auto simp add: phase_step_def set_traffic_light_phase_def phases_lookup Let_def
        intro!: exI [of _ fc])
qed

lemma phase_step_EW_yellow:
  assumes "current_phase s = ''EW_yellow''" and "lanes ''NS'' = Some ls"
  shows "\<exists>fc. phase_step env s =
     Inr (if yellow_time \<le> getTime env - phase_start_time s
          then s\<lparr>fuzzy_controller := fc,
                 avg_queue_lengths := avg_queue_lengths s @ [halting_total env ls],
                 avg_waiting_times := avg_waiting_times s @ [average_waiting env ls],
                 current_green_time := direction_green_time env ls,
                 setPhase_calls := setPhase_calls s @ [(tl_id, 0)],
                 current_phase := ''NS_green'',
                 phase_start_time := getTime env\<rparr>
          else s)"
proof -
  obtain fc where "compute_optimal_green_time env ''NS'' s =
     Inr (direction_green_time env ls,
          s\<lparr>fuzzy_controller := fc,
            avg_queue_lengths := avg_queue_lengths s @ [halting_total env ls],
            avg_waiting_times := avg_waiting_times s @ [average_waiting env ls]\<rparr>)"
    using compute_optimal_green_time_result [OF assms(2)] by blast
  then show ?thesis
    using assms(1)
    by (auto simp add: phase_step_def set_traffic_light_phase_def phases_lookup Let_def
        intro!: exI [of _ fc])
qed

lemma phase_step_other:
  assumes "current_phase s \<notin> set defined_phases"
  shows "phase_step env s = Inr s"
  using assms by (simp add: phase_step_def defined_phases_def Let_def)


lemma phase_step_summary:
  "\<exists>s'. phase_step env s = Inr s' \<and>
     current_phase s' = (if expired env s then next_phase (current_phase s) else current_phase s) \<and>
     phase_start_time s' = (if expired env s then getTime env else phase_start_time s) \<and>
     phase_changes s' =
       phase_changes s + (if expired env s \<and> is_green (current_phase s) then 1 else 0) \<and>
     current_green_time s' =
       (if expired env s \<and> current_phase s = ''NS_yellow''
        then direction_green_time env [''E2C_0'', ''E2C_1'', ''W2C_0'', ''W2C_1'']
        else if expired env s \<and> current_phase s = ''EW_yellow''
        then direction_green_time env [''N2C_0'', ''N2C_1'', ''S2C_0'', ''S2C_1'']
        else current_green_time s) \<and>
     total_vehicles s' = total_vehicles s \<and> total_waiting_time s' = total_waiting_time s"
proof -
  consider (a) "current_phase s = ''NS_green''" | (b) "current_phase s = ''NS_yellow''"
    | (c) "current_phase s = ''EW_green''" | (d) "current_phase s = ''EW_yellow''"
    | (e) "current_phase s \<notin> set defined_phases"
    by (auto simp: defined_phases_def)
  then show ?thesis
  proof cases
    case a
    then show ?thesis
      by (simp add: phase_step_NS_green expired_def is_green_def is_yellow_def next_phase_def)
  next
    case b
    obtain fc where "phase_step env s =
     Inr (if yellow_time \<le> getTime env - phase_start_time s
          then s\<lparr>fuzzy_controller := fc,
                 avg_queue_lengths := avg_queue_lengths s @ [halting_total env [''E2C_0'', ''E2C_1'', ''W2C_0'', ''W2C_1'']],
                 avg_waiting_times := avg_waiting_times s @ [average_waiting env [''E2C_0'', ''E2C_1'', ''W2C_0'', ''W2C_1'']],
                 current_green_time := direction_green_time env [''E2C_0'', ''E2C_1'', ''W2C_0'', ''W2C_1''],
                 setPhase_calls := setPhase_calls s @ [(tl_id, 2)],
                 current_phase := ''EW_green'',
                 phase_start_time := getTime env\<rparr>
          else s)"
      using phase_step_NS_yellow [OF b lanes_lookup(2)] by blast
    with b show ?thesis
      by (simp add: expired_def is_green_def is_yellow_def next_phase_def)
  next
    case c
    then show ?thesis
      by (simp add: phase_step_EW_green expired_def is_green_def is_yellow_def next_phase_def)
  next
    case d
    obtain fc where "phase_step env s =
     Inr (if yellow_time \<le> getTime env - phase_start_time s
          then s\<lparr>fuzzy_controller := fc,
                 avg_queue_lengths := avg_queue_lengths s @ [halting_total env [''N2C_0'', ''N2C_1'', ''S2C_0'', ''S2C_1'']],
                 avg_waiting_times := avg_waiting_times s @ [average_waiting env [''N2C_0'', ''N2C_1'', ''S2C_0'', ''S2C_1'']],
                 current_green_time := direction_green_time env [''N2C_0'', ''N2C_1'', ''S2C_0'', ''S2C_1''],
                 setPhase_calls := setPhase_calls s @ [(tl_id, 0)],
                 current_phase := ''NS_green'',
                 phase_start_time := getTime env\<rparr>
          else s)"
      using phase_step_EW_yellow [OF d lanes_lookup(1)] by blast
    with d show ?thesis
      by (simp add: expired_def is_green_def is_yellow_def next_phase_def)
  next
    case e
    then show ?thesis
      by (simp add: phase_step_other expired_def is_green_def is_yellow_def next_phase_def
          defined_phases_def)
  qed
qed

lemma loop_body_summary:
  "\<exists>s'. loop_body env s = Inr s' \<and>
     current_phase s' = (if expired env s then next_phase (current_phase s) else current_phase s) \<and>
     phase_start_time s' = (if expired env s then getTime env else phase_start_time s) \<and>
     phase_changes s' =
       phase_changes s + (if expired env s \<and> is_green (current_phase s) then 1 else 0) \<and>
     current_green_time s' =
       (if expired env s \<and> current_phase s = ''NS_yellow''
        then direction_green_time env [''E2C_0'', ''E2C_1'', ''W2C_0'', ''W2C_1'']
        else if expired env s \<and> current_phase s = ''EW_yellow''
        then direction_green_time env [''N2C_0'', ''N2C_1'', ''S2C_0'', ''S2C_1'']
        else current_green_time s)"
proof -
  from phase_step_summary [of env s] obtain s1 where
    "phase_step env s = Inr s1" and
    "current_phase s1 = (if expired env s then next_phase (current_phase s) else current_phase s)" and
    "phase_start_time s1 = (if expired env s then getTime env else phase_start_time s)" and
    "phase_changes s1 =
       phase_changes s + (if expired env s \<and> is_green (current_phase s) then 1 else 0)" and
    "current_green_time s1 =
       (if expired env s \<and> current_phase s = ''NS_yellow''
        then direction_green_time env [''E2C_0'', ''E2C_1'', ''W2C_0'', ''W2C_1'']
        else if expired env s \<and> current_phase s = ''EW_yellow''
        then direction_green_time env [''N2C_0'', ''N2C_1'', ''S2C_0'', ''S2C_1'']
        else current_green_time s)"
    by blast
  then show ?thesis
    by (simp add: loop_body_def Let_def)
qed

lemma next_phase_changes: "p \<in> set defined_phases \<Longrightarrow> next_phase p \<noteq> p"
  by (auto simp: defined_phases_def next_phase_def)

lemma next_phase_defined: "p \<in> set defined_phases \<Longrightarrow> next_phase p \<in> set defined_phases"
  by (auto simp: defined_phases_def next_phase_def)

lemma expired_defined: "expired env s \<Longrightarrow> current_phase s \<in> set defined_phases"
  by (auto simp: expired_def is_green_def is_yellow_def defined_phases_def)

lemma is_green_next: "p \<in> set defined_phases \<Longrightarrow> is_green (next_phase p) = (\<not> is_green p)"
  by (auto simp: defined_phases_def next_phase_def is_green_def)

lemma run_loop_phase:
  "\<exists>s'. run_loop envs s = Inr s' \<and>
     current_phase s' = (next_phase ^^ transition_count envs s) (current_phase s)"
proof (induction envs arbitrary: s)
  case Nil
  show ?case by simp
next
  case (Cons env envs)
  from loop_body_summary [of env s] obtain s1 where
    step: "loop_body env s = Inr s1" and
    ph: "current_phase s1 = (if expired env s then next_phase (current_phase s) else current_phase s)"
    by blast
  from Cons.IH [of s1] obtain s' where
    run: "run_loop envs s1 = Inr s'" and
    fin: "current_phase s' = (next_phase ^^ transition_count envs s1) (current_phase s1)"
    by blast
  show ?case
  proof (cases "expired env s")
    case True
    then have "current_phase s1 \<noteq> current_phase s"
      using ph next_phase_changes [OF expired_defined] by simp
    then have "transition_count (env # envs) s = Suc (transition_count envs s1)"
      using step by simp
    then show ?thesis
      using step run fin ph True by (simp add: funpow_swap1)
  next
    case False
    then have "transition_count (env # envs) s = transition_count envs s1"
      using step ph by simp
    then show ?thesis
      using step run fin ph False by simp
  qed
qed

lemma run_loop_phase_changes:
  assumes "current_phase s \<in> set defined_phases"
  shows "\<exists>s'. run_loop envs s = Inr s' \<and>
     phase_changes s' =
       phase_changes s + (transition_count envs s + (if is_green (current_phase s) then 1 else 0)) div 2"
  using assms
proof (induction envs arbitrary: s)
  case Nil
  show ?case by simp
next
  case (Cons env envs)
  from loop_body_summary [of env s] obtain s1 where
    step: "loop_body env s = Inr s1" and
    ph: "current_phase s1 = (if expired env s then next_phase (current_phase s) else current_phase s)" and
    pc: "phase_changes s1 =
       phase_changes s + (if expired env s \<and> is_green (current_phase s) then 1 else 0)"
    by blast
  have def1: "current_phase s1 \<in> set defined_phases"
    using ph Cons.prems next_phase_defined by simp
  from Cons.IH [OF def1] obtain s' where
    run: "run_loop envs s1 = Inr s'" and
    fin: "phase_changes s' =
       phase_changes s1 + (transition_count envs s1 + (if is_green (current_phase s1) then 1 else 0)) div 2"
    by blast
  show ?case
  proof (cases "expired env s")
    case True
    then have "current_phase s1 \<noteq> current_phase s"
      using ph next_phase_changes [OF Cons.prems] by simp
    then have tc: "transition_count (env # envs) s = Suc (transition_count envs s1)"
      using step by simp
    have gr: "is_green (current_phase s1) = (\<not> is_green (current_phase s))"
      using ph True is_green_next [OF Cons.prems] by simp
    show ?thesis
      using step run fin pc True gr tc by (cases "is_green (current_phase s)") simp_all
  next
    case False
    then have "transition_count (env # envs) s = transition_count envs s1"
      using step ph by simp
    then show ?thesis
      using step run fin ph pc False by simp
  qed
qed

lemma run_loop_defined:
  assumes "current_phase s \<in> set defined_phases"
  shows "\<exists>s'. run_loop envs s = Inr s' \<and> current_phase s' \<in> set defined_phases"
proof -
  from run_loop_phase [of envs s] obtain s' where
    "run_loop envs s = Inr s'" and
    "current_phase s' = (next_phase ^^ transition_count envs s) (current_phase s)"
    by blast
  moreover have "(next_phase ^^ n) (current_phase s) \<in> set defined_phases" for n
    by (induction n) (simp_all add: assms next_phase_defined)
  ultimately show ?thesis by auto
qed

lemma defined_phases_safe: "p \<in> set defined_phases \<Longrightarrow> safe_phase p"
  by (auto simp: defined_phases_def safe_phase_def signals_def phases_def phase_colours_def)

lemma direction_green_time_bounds:
  "10 \<le> direction_green_time env ls \<and> direction_green_time env ls \<le> 90"
  unfolding direction_green_time_def by (rule infer_bounds)

text \<open>
  C2. Whatever the simulator reports over any number of steps, the run from the initial state
  raises nothing and ends in a state whose phase is one of the four defined phases; in such a
  phase exactly one of the directions NS and EW shows red, so the two are never both green or
  yellow. Every state a run passes through is the end of a shorter run.
\<close>

theorem phase_safety:
  "\<exists>s. run_simulation envs = Inr s \<and> current_phase s \<in> set defined_phases \<and>
       safe_phase (current_phase s)"
proof -
  have "current_phase init_simulation \<in> set defined_phases"
    by (simp add: init_simulation_def defined_phases_def)
  from run_loop_defined [OF this, of envs] show ?thesis
    unfolding run_simulation_def using defined_phases_safe by blast
qed

lemma yellow_expiry_NS:
  assumes ph: "current_phase s = ''NS_yellow''"
    and el: "3 \<le> getTime env - phase_start_time s"
  shows "\<exists>ls q wt gt fc s'.
      lanes ''EW'' = Some ls \<and> get_lane_metrics env ls = Inr (q, wt) \<and>
      compute_green_time (fuzzy_controller s) (real_of_int q) wt = Inr (gt, fc) \<and>
      loop_body env s = Inr s' \<and> current_phase s' = ''EW_green'' \<and>
      current_green_time s' = gt \<and> phase_start_time s' = getTime env"
proof -
  let ?ls = "[''E2C_0'', ''E2C_1'', ''W2C_0'', ''W2C_1'']"
  have ex: "expired env s"
    using ph el by (simp add: expired_def is_yellow_def yellow_time_def)
  from loop_body_summary [of env s] obtain s' where
    step: "loop_body env s = Inr s'" and
    p: "current_phase s' = ''EW_green''" and
    t: "phase_start_time s' = getTime env" and
    gt: "current_green_time s' = direction_green_time env ?ls"
    using ex ph by (auto simp: next_phase_def)
  obtain fc where c: "compute_green_time (fuzzy_controller s) (real_of_int (halting_total env ?ls))
      (average_waiting env ?ls) = Inr (direction_green_time env ?ls, fc)"
    using compute_green_time_direction by blast
  show ?thesis
    using lanes_lookup(2) get_lane_metrics_eq [of env ?ls] c step p gt t
    by (intro exI conjI)
qed

lemma yellow_expiry_EW:
  assumes ph: "current_phase s = ''EW_yellow''"
    and el: "3 \<le> getTime env - phase_start_time s"
  shows "\<exists>ls q wt gt fc s'.
      lanes ''NS'' = Some ls \<and> get_lane_metrics env ls = Inr (q, wt) \<and>
      compute_green_time (fuzzy_controller s) (real_of_int q) wt = Inr (gt, fc) \<and>
      loop_body env s = Inr s' \<and> current_phase s' = ''NS_green'' \<and>
      current_green_time s' = gt \<and> phase_start_time s' = getTime env"
proof -
  let ?ls = "[''N2C_0'', ''N2C_1'', ''S2C_0'', ''S2C_1'']"
  have ex: "expired env s"
    using ph el by (simp add: expired_def is_yellow_def yellow_time_def)
  from loop_body_summary [of env s] obtain s' where
    step: "loop_body env s = Inr s'" and
    p: "current_phase s' = ''NS_green''" and
    t: "phase_start_time s' = getTime env" and
    gt: "current_green_time s' = direction_green_time env ?ls"
    using ex ph by (auto simp: next_phase_def)
  obtain fc where c: "compute_green_time (fuzzy_controller s) (real_of_int (halting_total env ?ls))
      (average_waiting env ?ls) = Inr (direction_green_time env ?ls, fc)"
    using compute_green_time_direction by blast
  show ?thesis
    using lanes_lookup(1) get_lane_metrics_eq [of env ?ls] c step p gt t
    by (intro exI conjI)
qed

lemma yellow_hold:
  assumes "is_yellow (current_phase s)" and "getTime env - phase_start_time s < 3"
  shows "\<exists>s'. loop_body env s = Inr s' \<and> current_phase s' = current_phase s \<and>
      current_green_time s' = current_green_time s \<and> phase_start_time s' = phase_start_time s"
proof -
  have "\<not> expired env s"
    using assms by (auto simp: expired_def is_yellow_def is_green_def yellow_time_def)
  with loop_body_summary [of env s] show ?thesis by auto
qed

lemma green_expiry_initial:
  assumes "getTime e1 = 30"
  shows "\<exists>s1. loop_body e1 init_simulation = Inr s1 \<and> current_phase s1 = ''NS_yellow'' \<and>
     phase_start_time s1 = 30 \<and> current_green_time s1 = 30 \<and> phase_changes s1 = 1"
proof -
  have "expired e1 init_simulation"
    using assms by (simp add: expired_def is_green_def init_simulation_def)
  with loop_body_summary [of e1 init_simulation] assms show ?thesis
    by (auto simp: init_simulation_def next_phase_def is_green_def)
qed

text \<open>
  C5. In \<open>NS_yellow\<close> with at least 3 seconds elapsed, a step reads the metrics of the EW
  lanes, calls \<open>compute_green_time\<close> on them, stores the result as the green duration,
  enters \<open>EW_green\<close> and resets the phase start to the current time; in \<open>EW_yellow\<close> the
  same with the NS lanes and \<open>NS_green\<close>. With less than 3 seconds elapsed a yellow phase
  is kept and nothing of this changes. From the initial state (NS green for 30 seconds since
  time 0) a step at time 30 enters \<open>NS_yellow\<close> and a step at time 33 enters
  \<open>EW_green\<close> with the duration computed from the EW metrics of that step.
\<close>

theorem yellow_expiry_queries_engine:
  "(current_phase s = ''NS_yellow'' \<and> 3 \<le> getTime env - phase_start_time s \<longrightarrow>
      (\<exists>ls q wt gt fc s'.
         lanes ''EW'' = Some ls \<and> get_lane_metrics env ls = Inr (q, wt) \<and>
         compute_green_time (fuzzy_controller s) (real_of_int q) wt = Inr (gt, fc) \<and>
         loop_body env s = Inr s' \<and> current_phase s' = ''EW_green'' \<and>
         current_green_time s' = gt \<and> phase_start_time s' = getTime env))
   \<and> (current_phase s = ''EW_yellow'' \<and> 3 \<le> getTime env - phase_start_time s \<longrightarrow>
      (\<exists>ls q wt gt fc s'.
         lanes ''NS'' = Some ls \<and> get_lane_metrics env ls = Inr (q, wt) \<and>
         compute_green_time (fuzzy_controller s) (real_of_int q) wt = Inr (gt, fc) \<and>
         loop_body env s = Inr s' \<and> current_phase s' = ''NS_green'' \<and>
         current_green_time s' = gt \<and> phase_start_time s' = getTime env))
   \<and> (is_yellow (current_phase s) \<and> getTime env - phase_start_time s < 3 \<longrightarrow>
      (\<exists>s'. loop_body env s = Inr s' \<and> current_phase s' = current_phase s \<and>
         current_green_time s' = current_green_time s \<and>
         phase_start_time s' = phase_start_time s))
   \<and> (getTime e1 = 30 \<and> getTime e2 = 33 \<longrightarrow>
      (\<exists>s1 s2 ls q wt gt fc.
         loop_body e1 init_simulation = Inr s1 \<and> current_phase s1 = ''NS_yellow'' \<and>
         lanes ''EW'' = Some ls \<and> get_lane_metrics e2 ls = Inr (q, wt) \<and>
         compute_green_time (fuzzy_controller s1) (real_of_int q) wt = Inr (gt, fc) \<and>
         loop_body e2 s1 = Inr s2 \<and> current_phase s2 = ''EW_green'' \<and>
         current_green_time s2 = gt \<and> phase_start_time s2 = 33))"
proof (intro conjI impI)
  assume "current_phase s = ''NS_yellow'' \<and> 3 \<le> getTime env - phase_start_time s"
  then show "\<exists>ls q wt gt fc s'.
         lanes ''EW'' = Some ls \<and> get_lane_metrics env ls = Inr (q, wt) \<and>
         compute_green_time (fuzzy_controller s) (real_of_int q) wt = Inr (gt, fc) \<and>
         loop_body env s = Inr s' \<and> current_phase s' = ''EW_green'' \<and>
         current_green_time s' = gt \<and> phase_start_time s' = getTime env"
    using yellow_expiry_NS by blast
next
  assume "current_phase s = ''EW_yellow'' \<and> 3 \<le> getTime env - phase_start_time s"
  then show "\<exists>ls q wt gt fc s'.
         lanes ''NS'' = Some ls \<and> get_lane_metrics env ls = Inr (q, wt) \<and>
         compute_green_time (fuzzy_controller s) (real_of_int q) wt = Inr (gt, fc) \<and>
         loop_body env s = Inr s' \<and> current_phase s' = ''NS_green'' \<and>
         current_green_time s' = gt \<and> phase_start_time s' = getTime env"
    using yellow_expiry_EW by blast
next
  assume "is_yellow (current_phase s) \<and> getTime env - phase_start_time s < 3"
  then show "\<exists>s'. loop_body env s = Inr s' \<and> current_phase s' = current_phase s \<and>
         current_green_time s' = current_green_time s \<and>
         phase_start_time s' = phase_start_time s"
    using yellow_hold by blast
next
  assume a: "getTime e1 = 30 \<and> getTime e2 = 33"
  then obtain s1 where s1: "loop_body e1 init_simulation = Inr s1"
    "current_phase s1 = ''NS_yellow''" "phase_start_time s1 = 30"
    using green_expiry_initial by blast
  then have "3 \<le> getTime e2 - phase_start_time s1" using a by simp
  from yellow_expiry_NS [OF s1(2) this]
  obtain ls q wt gt fc s2 where
    "lanes ''EW'' = Some ls" "get_lane_metrics e2 ls = Inr (q, wt)"
    "compute_green_time (fuzzy_controller s1) (real_of_int q) wt = Inr (gt, fc)"
    "loop_body e2 s1 = Inr s2" "current_phase s2 = ''EW_green''"
    "current_green_time s2 = gt" "phase_start_time s2 = getTime e2"
    by blast
  moreover have "getTime e2 = 33" using a by simp
  ultimately show "\<exists>s1 s2 ls q wt gt fc.
         loop_body e1 init_simulation = Inr s1 \<and> current_phase s1 = ''NS_yellow'' \<and>
         lanes ''EW'' = Some ls \<and> get_lane_metrics e2 ls = Inr (q, wt) \<and>
         compute_green_time (fuzzy_controller s1) (real_of_int q) wt = Inr (gt, fc) \<and>
         loop_body e2 s1 = Inr s2 \<and> current_phase s2 = ''EW_green'' \<and>
         current_green_time s2 = gt \<and> phase_start_time s2 = 33"
    using s1(1,2) by (intro exI [of _ s1] exI [of _ s2] exI [of _ ls] exI [of _ q]
        exI [of _ wt] exI [of _ gt] exI [of _ fc]) simp
qed

theorem yellow_expiry_queries_engine_witness:
  "(\<exists>ls q wt gt fc s'.
         lanes ''EW'' = Some ls \<and> get_lane_metrics (empty_road 33) ls = Inr (q, wt) \<and>
         compute_green_time setup_fuzzy_system (real_of_int q) wt = Inr (gt, fc) \<and>
         loop_body (empty_road 33)
           (init_simulation\<lparr>current_phase := ''NS_yellow'', phase_start_time := 30\<rparr>) = Inr s' \<and>
         current_phase s' = ''EW_green'' \<and>
         current_green_time s' = gt \<and> phase_start_time s' = 33)
   \<and> (\<exists>ls q wt gt fc s'.
         lanes ''NS'' = Some ls \<and> get_lane_metrics (empty_road 203) ls = Inr (q, wt) \<and>
         compute_green_time setup_fuzzy_system (real_of_int q) wt = Inr (gt, fc) \<and>
         loop_body (empty_road 203)
           (init_simulation\<lparr>current_phase := ''EW_yellow'', phase_start_time := 200\<rparr>) = Inr s' \<and>
         current_phase s' = ''NS_green'' \<and>
         current_green_time s' = gt \<and> phase_start_time s' = 203)
   \<and> (\<exists>s'. loop_body (empty_road 32)
           (init_simulation\<lparr>current_phase := ''NS_yellow'', phase_start_time := 30\<rparr>) = Inr s' \<and>
         current_phase s' = ''NS_yellow'' \<and> current_green_time s' = 30 \<and>
         phase_start_time s' = 30)
   \<and> (\<exists>s1 s2 ls q wt gt fc.
         loop_body (empty_road 30) init_simulation = Inr s1 \<and> current_phase s1 = ''NS_yellow'' \<and>
         lanes ''EW'' = Some ls \<and> get_lane_metrics (empty_road 33) ls = Inr (q, wt) \<and>
         compute_green_time (fuzzy_controller s1) (real_of_int q) wt = Inr (gt, fc) \<and>
         loop_body (empty_road 33) s1 = Inr s2 \<and> current_phase s2 = ''EW_green'' \<and>
         current_green_time s2 = gt \<and> phase_start_time s2 = 33)"
proof (intro conjI)
  let ?ny = "init_simulation\<lparr>current_phase := ''NS_yellow'', phase_start_time := 30\<rparr>"
  let ?ey = "init_simulation\<lparr>current_phase := ''EW_yellow'', phase_start_time := 200\<rparr>"
  show "\<exists>ls q wt gt fc s'.
         lanes ''EW'' = Some ls \<and> get_lane_metrics (empty_road 33) ls = Inr (q, wt) \<and>
         compute_green_time setup_fuzzy_system (real_of_int q) wt = Inr (gt, fc) \<and>
         loop_body (empty_road 33) ?ny = Inr s' \<and>
         current_phase s' = ''EW_green'' \<and>
         current_green_time s' = gt \<and> phase_start_time s' = 33"
    using yellow_expiry_queries_engine [of ?ny "empty_road 33"]
    by (simp add: empty_road_def init_simulation_def)
  show "\<exists>ls q wt gt fc s'.
         lanes ''NS'' = Some ls \<and> get_lane_metrics (empty_road 203) ls = Inr (q, wt) \<and>
         compute_green_time setup_fuzzy_system (real_of_int q) wt = Inr (gt, fc) \<and>
         loop_body (empty_road 203) ?ey = Inr s' \<and>
         current_phase s' = ''NS_green'' \<and>
         current_green_time s' = gt \<and> phase_start_time s' = 203"
    using yellow_expiry_queries_engine [of ?ey "empty_road 203"]
    by (simp add: empty_road_def init_simulation_def)
  show "\<exists>s'. loop_body (empty_road 32) ?ny = Inr s' \<and>
         current_phase s' = ''NS_yellow'' \<and> current_green_time s' = 30 \<and>
         phase_start_time s' = 30"
    using yellow_expiry_queries_engine [of ?ny "empty_road 32"]
    by (simp add: empty_road_def init_simulation_def is_yellow_def)
  show "\<exists>s1 s2 ls q wt gt fc.
         loop_body (empty_road 30) init_simulation = Inr s1 \<and> current_phase s1 = ''NS_yellow'' \<and>
         lanes ''EW'' = Some ls \<and> get_lane_metrics (empty_road 33) ls = Inr (q, wt) \<and>
         compute_green_time (fuzzy_controller s1) (real_of_int q) wt = Inr (gt, fc) \<and>
         loop_body (empty_road 33) s1 = Inr s2 \<and> current_phase s2 = ''EW_green'' \<and>
         current_green_time s2 = gt \<and> phase_start_time s2 = 33"
    using yellow_expiry_queries_engine [of _ _ "empty_road 30" "empty_road 33"]
    by (simp add: empty_road_def)
qed

lemma example_run_steps:
  "\<exists>s1 s2 s3 s4.
     loop_body (empty_road 30) init_simulation = Inr s1 \<and> current_phase s1 = ''NS_yellow'' \<and>
     loop_body (empty_road 33) s1 = Inr s2 \<and> current_phase s2 = ''EW_green'' \<and>
     loop_body (empty_road 200) s2 = Inr s3 \<and> current_phase s3 = ''EW_yellow'' \<and>
     loop_body (empty_road 203) s3 = Inr s4 \<and> current_phase s4 = ''NS_green''"
proof -
  obtain s1 where s1: "loop_body (empty_road 30) init_simulation = Inr s1"
    "current_phase s1 = ''NS_yellow''" "phase_start_time s1 = 30"
    using green_expiry_initial [of "empty_road 30"] by (auto simp: empty_road_def)
  have "3 \<le> getTime (empty_road 33) - phase_start_time s1"
    using s1(3) by (simp add: empty_road_def)
  from yellow_expiry_NS [OF s1(2) this]
  obtain ls s2 where s2: "lanes ''EW'' = Some ls" "loop_body (empty_road 33) s1 = Inr s2"
    "current_phase s2 = ''EW_green''" "current_green_time s2 = direction_green_time (empty_road 33) ls"
    "phase_start_time s2 = 33"
    by (auto simp: get_lane_metrics_eq compute_green_time_eq direction_green_time_def empty_road_def)
  have "expired (empty_road 200) s2"
    using s2(3,4,5) direction_green_time_bounds [of "empty_road 33" ls]
    by (simp add: expired_def is_green_def empty_road_def)
  with loop_body_summary [of "empty_road 200" s2]
  obtain s3 where s3: "loop_body (empty_road 200) s2 = Inr s3"
    "current_phase s3 = ''EW_yellow''" "phase_start_time s3 = 200"
    using s2(3) by (auto simp: next_phase_def empty_road_def)
  have "3 \<le> getTime (empty_road 203) - phase_start_time s3"
    using s3(3) by (simp add: empty_road_def)
  from yellow_expiry_EW [OF s3(2) this]
  obtain s4 where s4: "loop_body (empty_road 203) s3 = Inr s4" "current_phase s4 = ''NS_green''"
    by blast
  from s1(1,2) s2(2,3) s3(1,2) s4 show ?thesis by blast
qed

lemma example_run_transitions: "transition_count example_run init_simulation = 4"
proof -
  from example_run_steps obtain s1 s2 s3 s4 where
     "loop_body (empty_road 30) init_simulation = Inr s1" "current_phase s1 = ''NS_yellow''"
     "loop_body (empty_road 33) s1 = Inr s2" "current_phase s2 = ''EW_green''"
     "loop_body (empty_road 200) s2 = Inr s3" "current_phase s3 = ''EW_yellow''"
     "loop_body (empty_road 203) s3 = Inr s4" "current_phase s4 = ''NS_green''"
    by blast
  then show ?thesis
    by (simp add: example_run_def init_simulation_def)
qed

text \<open>
  C6. A run changes the phase only along the cycle \<open>NS_green\<close>, \<open>NS_yellow\<close>,
  \<open>EW_green\<close>, \<open>EW_yellow\<close>, \<open>NS_green\<close>: the phase after a run is the phase it
  started in, advanced along the cycle once for each step at which the phase changed. A run
  that starts in \<open>NS_green\<close> and has exactly 4 phase changes ends in \<open>NS_green\<close>.
\<close>

theorem phase_cycle:
  "(\<exists>s'. run_loop envs s = Inr s' \<and>
         current_phase s' = (next_phase ^^ transition_count envs s) (current_phase s))
   \<and> next_phase ''NS_green'' = ''NS_yellow'' \<and> next_phase ''NS_yellow'' = ''EW_green''
   \<and> next_phase ''EW_green'' = ''EW_yellow'' \<and> next_phase ''EW_yellow'' = ''NS_green''
   \<and> (current_phase s = ''NS_green'' \<and> transition_count envs s = 4 \<longrightarrow>
        (\<exists>s'. run_loop envs s = Inr s' \<and> current_phase s' = ''NS_green''))"
proof -
  have cyc: "next_phase ''NS_green'' = ''NS_yellow''" "next_phase ''NS_yellow'' = ''EW_green''"
    "next_phase ''EW_green'' = ''EW_yellow''" "next_phase ''EW_yellow'' = ''NS_green''"
    by (simp_all add: next_phase_def)
  have four: "(next_phase ^^ 4) ''NS_green'' = ''NS_green''"
    by (simp add: numeral_eq_Suc cyc)
  from run_loop_phase [of envs s] obtain s' where
    r: "run_loop envs s = Inr s'"
    "current_phase s' = (next_phase ^^ transition_count envs s) (current_phase s)"
    by blast
  then have "current_phase s = ''NS_green'' \<and> transition_count envs s = 4 \<longrightarrow>
        (\<exists>s'. run_loop envs s = Inr s' \<and> current_phase s' = ''NS_green'')"
    using four by auto
  with r cyc show ?thesis by blast
qed

theorem phase_cycle_witness:
  "current_phase init_simulation = ''NS_green'' \<and>
   transition_count example_run init_simulation = 4 \<and>
   (\<exists>s'. run_loop example_run init_simulation = Inr s' \<and> current_phase s' = ''NS_green'')"
proof -
  have "current_phase init_simulation = ''NS_green''" by (simp add: init_simulation_def)
  then show ?thesis
    using phase_cycle [of example_run init_simulation] example_run_transitions by blast
qed

text \<open>
  C10. A step adds 1 to \<open>phase_changes\<close> when it leaves a green phase and adds nothing
  otherwise (when it leaves a yellow phase, or changes no phase). A run with exactly 4 phase
  changes, started in any of the four phases, adds exactly 2.
\<close>

theorem phase_changes_only_on_green_exit:
  "(\<exists>s'. loop_body env s = Inr s' \<and>
      (current_phase s' = current_phase s \<or> current_phase s' = next_phase (current_phase s)) \<and>
      phase_changes s' =
        phase_changes s +
          (if is_green (current_phase s) \<and> current_phase s' \<noteq> current_phase s then 1 else 0))
   \<and> (current_phase s \<in> set defined_phases \<and> transition_count envs s = 4 \<longrightarrow>
        (\<exists>s'. run_loop envs s = Inr s' \<and> phase_changes s' = phase_changes s + 2))"
proof (intro conjI impI)
  from loop_body_summary [of env s] obtain s' where
    step: "loop_body env s = Inr s'" and
    ph: "current_phase s' = (if expired env s then next_phase (current_phase s) else current_phase s)" and
    pc: "phase_changes s' =
       phase_changes s + (if expired env s \<and> is_green (current_phase s) then 1 else 0)"
    by blast
  have "expired env s \<longleftrightarrow> current_phase s' \<noteq> current_phase s"
    using ph next_phase_changes [OF expired_defined, of env s] by auto
  then have "phase_changes s' =
        phase_changes s +
          (if is_green (current_phase s) \<and> current_phase s' \<noteq> current_phase s then 1 else 0)"
    using pc by auto
  moreover have "current_phase s' = current_phase s \<or> current_phase s' = next_phase (current_phase s)"
    using ph by auto
  ultimately show "\<exists>s'. loop_body env s = Inr s' \<and>
      (current_phase s' = current_phase s \<or> current_phase s' = next_phase (current_phase s)) \<and>
      phase_changes s' =
        phase_changes s +
          (if is_green (current_phase s) \<and> current_phase s' \<noteq> current_phase s then 1 else 0)"
    using step by blast
next
  assume a: "current_phase s \<in> set defined_phases \<and> transition_count envs s = 4"
  then have d: "current_phase s \<in> set defined_phases" and t: "transition_count envs s = 4"
    by simp_all
  from run_loop_phase_changes [OF d, of envs] obtain s' where
    "run_loop envs s = Inr s'"
    "phase_changes s' =
       phase_changes s + (transition_count envs s + (if is_green (current_phase s) then 1 else 0)) div 2"
    by blast
  then show "\<exists>s'. run_loop envs s = Inr s' \<and> phase_changes s' = phase_changes s + 2"
    using t by auto
qed

theorem phase_changes_only_on_green_exit_witness:
  "current_phase init_simulation \<in> set defined_phases \<and>
   transition_count example_run init_simulation = 4 \<and>
   (\<exists>s'. run_loop example_run init_simulation = Inr s' \<and> phase_changes s' = 2)"
proof -
  have "current_phase init_simulation \<in> set defined_phases"
    and "phase_changes init_simulation = 0"
    by (simp_all add: init_simulation_def defined_phases_def)
  then show ?thesis
    using phase_changes_only_on_green_exit [of "empty_road 0" init_simulation example_run]
      example_run_transitions
    by auto
qed

end
